theory Spec2Isabelle
  imports Complex_Main "HOL-Library.Multiset"
begin

section \<open>The post gallery (component PostList) as a shallow embedding\<close>

text \<open>
  The component keeps one aggregate of view state (\<open>useState\<close>), derives the filtered,
  sorted and paged list from it (\<open>useMemo\<close>), and changes the state through handlers.
  Each handler is a function from state to state; the derived pipeline is a function of
  the state. JavaScript numbers that hold identifiers, page numbers and list indices are
  integers far below \<open>2^53\<close>, where the arithmetic of the source is exact; they are
  modelled as \<open>int\<close>.
\<close>

subsection \<open>Strings and the built-in string operations the component calls\<close>

text \<open>
  A string is a list of code units; the model covers the code units \<open>0..255\<close> (Latin-1),
  which \<open>char\<close> holds. On that range \<open>String.prototype.toLowerCase\<close> works unit by unit:
  the capitals \<open>A..Z\<close> (65..90) and the accented capitals 192..222 other than the
  multiplication sign 215 move up by 32, every other unit stays.
\<close>

definition lower_unit :: "char \<Rightarrow> char" where
  "lower_unit c =
     (let n = (of_char c :: nat)
      in if (65 \<le> n \<and> n \<le> 90) \<or> (192 \<le> n \<and> n \<le> 222 \<and> n \<noteq> 215)
         then char_of (n + 32) else c)"

definition toLowerCase :: "string \<Rightarrow> string" where
  "toLowerCase s = map lower_unit s"

text \<open>\<open>hay.startsWith(needle)\<close> and \<open>hay.includes(needle)\<close>: a scan for a contiguous
  occurrence, from the left. The empty needle occurs in every string.\<close>

fun startsWith :: "string \<Rightarrow> string \<Rightarrow> bool" where
  "startsWith hay [] = True"
| "startsWith [] (n # ns) = False"
| "startsWith (h # hs) (n # ns) = (h = n \<and> startsWith hs ns)"

fun includes_str :: "string \<Rightarrow> string \<Rightarrow> bool" where
  "includes_str [] needle = (needle = [])"
| "includes_str (h # hs) needle = (startsWith (h # hs) needle \<or> includes_str hs needle)"

text \<open>\<open>Number.prototype.toString\<close> on an integer: its decimal digits, most significant
  first, after a minus sign when it is negative.\<close>

definition digit_unit :: "nat \<Rightarrow> char" where
  "digit_unit d = char_of (48 + d)"

function digits :: "nat \<Rightarrow> string" where
  "digits n = (if n < 10 then [digit_unit n] else digits (n div 10) @ [digit_unit (n mod 10)])"
  by pat_completeness auto
termination
  by (relation "measure (\<lambda>n. n)") auto

declare digits.simps [simp del]

definition toString :: "int \<Rightarrow> string" where
  "toString i = (if i < 0 then CHR ''-'' # digits (nat (- i)) else digits (nat i))"

text \<open>The number a string of decimal digits denotes, to state what \<open>toString\<close> prints.\<close>

definition decimal_value :: "string \<Rightarrow> nat" where
  "decimal_value ds = foldl (\<lambda>acc c. 10 * acc + (of_char c - 48)) 0 ds"

text \<open>The remainder operator \<open>%\<close>: the result takes the sign of the dividend.\<close>

definition js_rem :: "int \<Rightarrow> int \<Rightarrow> int" where
  "js_rem a b = sgn a * (\<bar>a\<bar> mod \<bar>b\<bar>)"

text \<open>\<open>Array.prototype.slice(start, end)\<close>: a negative index counts from the end, and
  both indices are clamped to the array, so the call never fails.\<close>

definition clamp_index :: "nat \<Rightarrow> int \<Rightarrow> nat" where
  "clamp_index len i = (if i < 0 then nat (max (int len + i) 0) else min (nat i) len)"

definition slice :: "'a list \<Rightarrow> int \<Rightarrow> int \<Rightarrow> 'a list" where
  "slice xs start stop =
     (let k = clamp_index (length xs) start; fin = clamp_index (length xs) stop
      in take (fin - k) (drop k xs))"

text \<open>\<open>slice(start)\<close> with the end left out: the end is the array's length.\<close>

definition slice_from :: "'a list \<Rightarrow> int \<Rightarrow> 'a list" where
  "slice_from xs start = slice xs start (int (length xs))"

text \<open>
  \<open>Array.prototype.sort(compareFn)\<close> is stable and orders by the comparator's sign
  (\<open>compareFn(a, b) \<le> 0\<close> keeps \<open>a\<close> before \<open>b\<close>). The algorithm is the engine's; a stable
  insertion sort stands for it, which yields the same list for every consistent
  comparator.
\<close>

fun insert_by :: "('a \<Rightarrow> 'a \<Rightarrow> int) \<Rightarrow> 'a \<Rightarrow> 'a list \<Rightarrow> 'a list" where
  "insert_by cmp x [] = [x]"
| "insert_by cmp x (y # ys) = (if cmp x y \<le> 0 then x # y # ys else y # insert_by cmp x ys)"

fun sort_by :: "('a \<Rightarrow> 'a \<Rightarrow> int) \<Rightarrow> 'a list \<Rightarrow> 'a list" where
  "sort_by cmp [] = []"
| "sort_by cmp (x # xs) = insert_by cmp x (sort_by cmp xs)"

subsection \<open>Data model\<close>

record user =
  user_id :: int
  name :: string

text \<open>\<open>new Date(2023, m, d)\<close> is kept as the constructor's arguments.\<close>

datatype js_date = Date int int int

text \<open>A post as the remote API returns it, and as the component keeps it after
  enrichment (\<open>...post\<close> copies the four fields, three more are added).\<close>

record raw_post =
  post_id :: int
  userId :: int
  title :: string
  body :: string

record post = raw_post +
  user :: "user option"
  date :: js_date
  tags :: "string list"

datatype sort_mode = Newest | Oldest | Alphabetical

text \<open>The error object axios rejects with: \<open>response\<close> (status, statusText) when the
  server answered, \<open>request\<close> truthy when the request was sent.\<close>

record axios_error =
  response :: "(int \<times> string) option"
  request :: bool

text \<open>
  The view state of \<open>useState\<close>, field by field. Two more components of the running
  page are kept beside it: \<open>debouncedSearch\<close>, the value \<open>useDebounce\<close> hands to the
  pipeline, and \<open>localStorage\<close>, the browser's key-value store.
\<close>

record state =
  posts :: "post list"
  loading :: bool
  error :: string
  searchQuery :: string
  currentPage :: int
  postsPerPage :: int
  sortBy :: sort_mode
  selectedPost :: "post option"
  favorites :: "int list"
  snackbarOpen :: bool
  snackbarMessage :: string
  darkMode :: bool
  anchorEl :: "nat option"
  deleteCandidate :: "post option"
  debouncedSearch :: string
  localStorage :: "string \<rightharpoonup> string"

text \<open>The state at mount, for the favourites list \<open>favs\<close> read from storage.\<close>

definition initial_state :: "int list \<Rightarrow> (string \<rightharpoonup> string) \<Rightarrow> state" where
  "initial_state favs store =
     \<lparr> posts = [], loading = True, error = [], searchQuery = [], currentPage = 1,
       postsPerPage = 12, sortBy = Newest, selectedPost = None, favorites = favs,
       snackbarOpen = False, snackbarMessage = [], darkMode = False, anchorEl = None,
       deleteCandidate = None, debouncedSearch = [], localStorage = store \<rparr>"

subsection \<open>The derived list pipeline\<close>

definition matches :: "string \<Rightarrow> post \<Rightarrow> bool" where
  "matches search p =
     (includes_str (toLowerCase (title p)) (toLowerCase search) \<or>
      includes_str (toLowerCase (body p)) (toLowerCase search) \<or>
      toString (userId p) = search)"

definition filterPosts :: "post list \<Rightarrow> string \<Rightarrow> post list" where
  "filterPosts P search = filter (matches search) P"

definition filtered :: "state \<Rightarrow> post list" where
  "filtered s = filterPosts (posts s) (debouncedSearch s)"

text \<open>The comparator handed to \<open>sort\<close>; \<open>localeCompare\<close> is the engine's collation
  and is taken as a parameter.\<close>

definition compareFn :: "(string \<Rightarrow> string \<Rightarrow> int) \<Rightarrow> sort_mode \<Rightarrow> post \<Rightarrow> post \<Rightarrow> int" where
  "compareFn localeCompare mode a b =
     (case mode of
        Newest \<Rightarrow> post_id b - post_id a
      | Oldest \<Rightarrow> post_id a - post_id b
      | Alphabetical \<Rightarrow> localeCompare (title a) (title b))"

definition sortPosts :: "(string \<Rightarrow> string \<Rightarrow> int) \<Rightarrow> sort_mode \<Rightarrow> post list \<Rightarrow> post list" where
  "sortPosts localeCompare mode P = sort_by (compareFn localeCompare mode) P"

text \<open>The three values the memo returns; \<open>filteredPosts\<close> is the sorted list.\<close>

definition filteredPosts :: "(string \<Rightarrow> string \<Rightarrow> int) \<Rightarrow> state \<Rightarrow> post list" where
  "filteredPosts localeCompare s = sortPosts localeCompare (sortBy s) (filtered s)"

definition pageCount :: "(string \<Rightarrow> string \<Rightarrow> int) \<Rightarrow> state \<Rightarrow> int" where
  "pageCount localeCompare s =
     \<lceil>real (length (filteredPosts localeCompare s)) / real_of_int (postsPerPage s)\<rceil>"

definition currentPosts :: "(string \<Rightarrow> string \<Rightarrow> int) \<Rightarrow> state \<Rightarrow> post list" where
  "currentPosts localeCompare s =
     (let indexOfLastPost = currentPage s * postsPerPage s;
          indexOfFirstPost = indexOfLastPost - postsPerPage s
      in slice (filteredPosts localeCompare s) indexOfFirstPost indexOfLastPost)"

text \<open>The pagination bound of the data model: the current page is one of the pages.\<close>

definition page_in_range :: "(string \<Rightarrow> string \<Rightarrow> int) \<Rightarrow> state \<Rightarrow> bool" where
  "page_in_range localeCompare s \<longleftrightarrow>
     1 \<le> currentPage s \<and> currentPage s \<le> pageCount localeCompare s"

text \<open>
  What \<open>sort\<close> asks of its comparator (a consistent comparator): any two elements are
  comparable, and \<open>compareFn(a, b) \<le> 0\<close> is transitive. The engine's collation is one.
\<close>

definition consistent_comparator :: "('a \<Rightarrow> 'a \<Rightarrow> int) \<Rightarrow> bool" where
  "consistent_comparator cmp \<longleftrightarrow>
     (\<forall>a b. cmp a b \<le> 0 \<or> cmp b a \<le> 0) \<and>
     (\<forall>a b c. cmp a b \<le> 0 \<and> cmp b c \<le> 0 \<longrightarrow> cmp a c \<le> 0)"

subsection \<open>Loading: the two requests, enrichment, error classification\<close>

definition enrich_post :: "user list \<Rightarrow> raw_post \<Rightarrow> post" where
  "enrich_post users p =
     \<lparr> post_id = post_id p, userId = userId p, title = title p, body = body p,
       user = find (\<lambda>u. user_id u = userId p) users,
       date = Date 2023 (js_rem (post_id p) 12) (js_rem (post_id p) 28),
       tags = slice_from [''tech'', ''business'', ''health''] (js_rem (post_id p) 3) \<rparr>"

definition errorMsg :: "axios_error \<Rightarrow> string" where
  "errorMsg err =
     (case response err of
        Some (status, statusText) \<Rightarrow> ''Error: '' @ toString status @ '' '' @ statusText
      | None \<Rightarrow> if request err then ''Server is not responding'' else ''Failed to fetch posts.'')"

definition handleError :: "axios_error \<Rightarrow> state \<Rightarrow> state" where
  "handleError err s = s\<lparr>error := errorMsg err\<rparr>"

text \<open>\<open>Promise.all\<close> of two requests: both values when both succeed, otherwise the
  error of the request that failed first (\<open>users_first\<close> says which, when both fail).\<close>

definition promise_all :: "bool \<Rightarrow> axios_error + 'a \<Rightarrow> axios_error + 'b \<Rightarrow> axios_error + ('a \<times> 'b)" where
  "promise_all users_first a b =
     (case a of
        Inr x \<Rightarrow> (case b of Inr y \<Rightarrow> Inr (x, y) | Inl e \<Rightarrow> Inl e)
      | Inl e1 \<Rightarrow> (case b of Inr y \<Rightarrow> Inl e1 | Inl e2 \<Rightarrow> Inl (if users_first then e2 else e1)))"

definition fetchData ::
  "bool \<Rightarrow> axios_error + raw_post list \<Rightarrow> axios_error + user list \<Rightarrow> state \<Rightarrow> state" where
  "fetchData users_first postsRes usersRes s =
     (case promise_all users_first postsRes usersRes of
        Inr (ps, us) \<Rightarrow> s\<lparr>posts := map (enrich_post us) ps, loading := False\<rparr>
      | Inl err \<Rightarrow> (handleError err s)\<lparr>loading := False\<rparr>)"

subsection \<open>Handlers\<close>

text \<open>\<open>JSON.stringify\<close> of an array of integers.\<close>

fun join_commas :: "string list \<Rightarrow> string" where
  "join_commas [] = []"
| "join_commas [x] = x"
| "join_commas (x # y # ys) = x @ '','' @ join_commas (y # ys)"

definition JSON_stringify :: "int list \<Rightarrow> string" where
  "JSON_stringify xs = ''['' @ join_commas (map toString xs) @ '']''"

definition toggleFavorite :: "int \<Rightarrow> state \<Rightarrow> state" where
  "toggleFavorite postId s =
     (let newFavorites =
            (if postId \<in> set (favorites s)
             then filter (\<lambda>i. i \<noteq> postId) (favorites s)
             else favorites s @ [postId])
      in s\<lparr> localStorage := (localStorage s)(''favorites'' \<mapsto> JSON_stringify newFavorites),
            favorites := newFavorites,
            snackbarOpen := True,
            snackbarMessage :=
              (if postId \<in> set (favorites s)
               then ''Removed from favorites'' else ''Added to favorites'') \<rparr>)"

text \<open>\<open>handleDelete\<close> receives \<open>state.deleteCandidate?.id\<close>: \<open>None\<close> stands for
  \<open>undefined\<close>, which no identifier equals.\<close>

definition handleDelete :: "int option \<Rightarrow> state \<Rightarrow> state" where
  "handleDelete postId s =
     s\<lparr> posts := filter (\<lambda>p. Some (post_id p) \<noteq> postId) (posts s),
        snackbarOpen := True,
        snackbarMessage := ''Post deleted successfully'',
        deleteCandidate := None \<rparr>"

text \<open>The inline event handlers of the rendered controls.\<close>

definition onSearchChange :: "string \<Rightarrow> state \<Rightarrow> state" where
  "onSearchChange v s = s\<lparr>searchQuery := v, currentPage := 1\<rparr>"

definition onSortPick :: "sort_mode \<Rightarrow> state \<Rightarrow> state" where
  "onSortPick option s = s\<lparr>sortBy := option, anchorEl := None\<rparr>"

definition onPageChange :: "int \<Rightarrow> state \<Rightarrow> state" where
  "onPageChange page s = s\<lparr>currentPage := page\<rparr>"

definition onDeleteClick :: "post \<Rightarrow> state \<Rightarrow> state" where
  "onDeleteClick p s = s\<lparr>deleteCandidate := Some p\<rparr>"

definition onDeleteCancel :: "state \<Rightarrow> state" where
  "onDeleteCancel s = s\<lparr>deleteCandidate := None\<rparr>"

definition onDeleteConfirm :: "state \<Rightarrow> state" where
  "onDeleteConfirm s = handleDelete (map_option post_id (deleteCandidate s)) s"

text \<open>The debounce timer running out: the pipeline's search string catches up with
  the text field.\<close>

definition debounce_settle :: "state \<Rightarrow> state" where
  "debounce_settle s = s\<lparr>debouncedSearch := searchQuery s\<rparr>"

subsection \<open>Concrete data for evaluating the model\<close>

definition raw_1 :: raw_post where
  "raw_1 = \<lparr>post_id = 1, userId = 1, title = ''Sunt Aut Facere'', body = ''quia et suscipit''\<rparr>"

definition raw_2 :: raw_post where
  "raw_2 = \<lparr>post_id = 2, userId = 7, title = ''qui est esse'', body = ''est rerum TEMPORE vitae''\<rparr>"

definition raw_3 :: raw_post where
  "raw_3 = \<lparr>post_id = 3, userId = 1, title = ''ea molestias'', body = ''et iusto sed quo iure''\<rparr>"

definition user_1 :: user where
  "user_1 = \<lparr>user_id = 1, name = ''Leanne Graham''\<rparr>"

definition three_posts :: "post list" where
  "three_posts = map (enrich_post [user_1]) [raw_1, raw_2, raw_3]"

text \<open>A comparator to run the alphabetical sort with: code unit by code unit.\<close>

fun codeUnitCompare :: "string \<Rightarrow> string \<Rightarrow> int" where
  "codeUnitCompare [] [] = 0"
| "codeUnitCompare [] (y # ys) = - 1"
| "codeUnitCompare (x # xs) [] = 1"
| "codeUnitCompare (x # xs) (y # ys) =
     (if (of_char x :: nat) < of_char y then - 1
      else if (of_char y :: nat) < of_char x then 1
      else codeUnitCompare xs ys)"

text \<open>The page after a successful load of three posts, and of thirteen.\<close>

definition three_loaded :: state where
  "three_loaded =
     fetchData False (Inr [raw_1, raw_2, raw_3]) (Inr [user_1]) (initial_state [] Map.empty)"

definition raw_n :: "int \<Rightarrow> raw_post" where
  "raw_n i = \<lparr>post_id = i, userId = 1, title = ''post '' @ toString i, body = ''lorem ipsum''\<rparr>"

definition thirteen_loaded :: state where
  "thirteen_loaded =
     fetchData False (Inr (map raw_n [1, 2, 3, 4, 5, 6, 7, 8, 9, 10, 11, 12, 13])) (Inr [user_1])
       (initial_state [] Map.empty)"

text \<open>The page at mount, a server error, and the second page of thirteen posts with the
  post shown there picked for deletion.\<close>

definition mount_state :: state where
  "mount_state = initial_state [] Map.empty"

definition error_500 :: axios_error where
  "error_500 = \<lparr>response = Some (500, ''Internal Server Error''), request = True\<rparr>"

definition no_answer :: axios_error where
  "no_answer = \<lparr>response = None, request = True\<rparr>"

definition not_sent :: axios_error where
  "not_sent = \<lparr>response = None, request = False\<rparr>"

definition two_favorites :: state where
  "two_favorites = mount_state\<lparr>favorites := [1, 2]\<rparr>"

definition no_match :: state where
  "no_match = debounce_settle (onSearchChange ''zzz'' three_loaded)"

definition page_two :: state where
  "page_two = onPageChange 2 thirteen_loaded"

definition page_two_candidate :: state where
  "page_two_candidate = onDeleteClick (enrich_post [user_1] (raw_n 1)) page_two"

section \<open>Properties\<close>

subsection \<open>Substring search\<close>

lemma startsWith_iff: "startsWith hay needle \<longleftrightarrow> (\<exists>suf. hay = needle @ suf)"
  by (induction hay needle rule: startsWith.induct) auto

lemma includes_str_iff: "includes_str hay needle \<longleftrightarrow> (\<exists>pre suf. hay = pre @ needle @ suf)"
proof (induction hay)
  case Nil
  show ?case by auto
next
  case (Cons h hs)
  show ?case
  proof
    assume "includes_str (h # hs) needle"
    then consider "startsWith (h # hs) needle" | "includes_str hs needle" by auto
    then show "\<exists>pre suf. h # hs = pre @ needle @ suf"
    proof cases
      case 1
      then obtain suf where "h # hs = needle @ suf" using startsWith_iff by blast
      then have "h # hs = [] @ needle @ suf" by simp
      then show ?thesis by blast
    next
      case 2
      then obtain pre suf where "hs = pre @ needle @ suf" using Cons.IH by blast
      then have "h # hs = (h # pre) @ needle @ suf" by simp
      then show ?thesis by blast
    qed
  next
    assume "\<exists>pre suf. h # hs = pre @ needle @ suf"
    then obtain pre suf where eq: "h # hs = pre @ needle @ suf" by blast
    show "includes_str (h # hs) needle"
    proof (cases pre)
      case Nil
      with eq have "startsWith (h # hs) needle" using startsWith_iff by auto
      then show ?thesis by simp
    next
      case (Cons a pre')
      with eq have "hs = pre' @ needle @ suf" by simp
      then have "includes_str hs needle" using Cons.IH by blast
      then show ?thesis by simp
    qed
  qed
qed

lemma includes_str_empty: "includes_str hay []"
  by (cases hay) simp_all

lemma toLowerCase_empty: "toLowerCase [] = []"
  by (simp add: toLowerCase_def)

subsection \<open>Decimal printing\<close>

text \<open>The digits \<open>toString\<close> prints for a natural number denote that number.\<close>

lemma digit_unit_value: "d < 10 \<Longrightarrow> (of_char (digit_unit d) :: nat) - 48 = d"
  by (simp add: digit_unit_def)

lemma decimal_value_snoc: "decimal_value (ds @ [c]) = 10 * decimal_value ds + (of_char c - 48)"
  by (simp add: decimal_value_def)

lemma decimal_value_digits: "decimal_value (digits n) = n"
proof (induction n rule: digits.induct)
  case (1 n)
  show ?case
  proof (cases "n < 10")
    case True
    then show ?thesis
      by (subst digits.simps) (simp add: decimal_value_def digit_unit_value)
  next
    case False
    have "decimal_value (digits n) = 10 * decimal_value (digits (n div 10)) + (of_char (digit_unit (n mod 10)) - 48)"
      using False by (subst digits.simps) (simp add: decimal_value_snoc)
    also have "\<dots> = 10 * (n div 10) + n mod 10"
      using False "1.IH" by (simp add: digit_unit_value)
    finally show ?thesis by simp
  qed
qed

lemma decimal_value_toString: "0 \<le> i \<Longrightarrow> int (decimal_value (toString i)) = i"
  by (simp add: toString_def decimal_value_digits)

subsection \<open>The filter step\<close>

text \<open>
  Claim C1. For every post list \<open>P\<close> and search string \<open>s\<close>, the filter step keeps, in
  their order, exactly the posts whose lower-cased title has the lower-cased \<open>s\<close> as a
  contiguous part, or whose lower-cased body has, or whose owning-user identifier
  printed in decimal is \<open>s\<close> itself; it keeps no other post.
\<close>

theorem filterPosts_keeps_exactly_the_matches:
  "filterPosts P s =
     filter (\<lambda>p. (\<exists>pre suf. toLowerCase (title p) = pre @ toLowerCase s @ suf)
               \<or> (\<exists>pre suf. toLowerCase (body p) = pre @ toLowerCase s @ suf)
               \<or> toString (userId p) = s) P"
  unfolding filterPosts_def
  by (rule filter_cong) (simp_all add: matches_def includes_str_iff)

theorem filterPosts_keeps_exactly_the_matches_witness:
  "map post_id
     (filter (\<lambda>p. (\<exists>pre suf. toLowerCase (title p) = pre @ toLowerCase ''EST'' @ suf)
                \<or> (\<exists>pre suf. toLowerCase (body p) = pre @ toLowerCase ''EST'' @ suf)
                \<or> toString (userId p) = ''EST'') three_posts) = [2, 3]"
proof -
  have e: "map post_id (filterPosts three_posts ''EST'') = [2, 3]"
    by code_simp
  show ?thesis
    unfolding filterPosts_keeps_exactly_the_matches [symmetric] by (rule e)
qed

text \<open>
  Claim C10. Filtering with the empty search string keeps every post: the empty string
  is part of every title, so the first test already succeeds.
\<close>

theorem filterPosts_empty_search: "filterPosts P [] = P"
  by (simp add: filterPosts_def matches_def toLowerCase_empty includes_str_empty)

subsection \<open>Enrichment\<close>

lemma js_rem_3: "js_rem a 3 = (if a < 0 \<and> a mod 3 \<noteq> 0 then a mod 3 - 3 else a mod 3)"
  unfolding js_rem_def sgn_if by (auto simp: zmod_zminus1_eq_if abs_if)

text \<open>
  Claim C2, as the specification states it, says that the tag list of a post is the
  first \<open>id mod 3\<close> words of the vocabulary. The source calls \<open>slice(id % 3)\<close>, which
  drops that many words instead: the post with identifier 1 gets the two words
  \<open>business, health\<close>, not the single word \<open>tech\<close>.
\<close>

theorem tags_are_not_the_first_words:
  "tags (enrich_post [user_1] raw_1) \<noteq> take (nat (post_id raw_1 mod 3)) [''tech'', ''business'', ''health'']"
  by (simp add: enrich_post_def raw_1_def js_rem_def slice_from_def slice_def clamp_index_def)

text \<open>
  Claim C2, amended. For every post with identifier \<open>id\<close>, enrichment assigns the
  vocabulary without its first \<open>id mod 3\<close> words (the words from index \<open>id mod 3\<close> to the
  end); the tag list has length \<open>3 - id mod 3\<close>.
\<close>

theorem tags_drop_id_mod_3:
  "tags (enrich_post us p) = drop (nat (post_id p mod 3)) [''tech'', ''business'', ''health'']
   \<and> int (length (tags (enrich_post us p))) = 3 - post_id p mod 3"
proof -
  have r: "post_id p mod 3 = 0 \<or> post_id p mod 3 = 1 \<or> post_id p mod 3 = 2" by presburger
  show ?thesis
    using r by (auto simp: enrich_post_def js_rem_3 slice_from_def slice_def clamp_index_def)
qed

subsection \<open>Sorting\<close>

lemma set_insert_by: "set (insert_by cmp x xs) = insert x (set xs)"
  by (induction xs) auto

lemma mset_insert_by: "mset (insert_by cmp x xs) = add_mset x (mset xs)"
  by (induction xs) auto

lemma mset_sort_by: "mset (sort_by cmp xs) = mset xs"
  by (induction xs) (auto simp: mset_insert_by)

lemma length_sort_by: "length (sort_by cmp xs) = length xs"
  using mset_sort_by [of cmp xs] by (metis size_mset)

lemma sorted_insert_by:
  assumes tot: "\<And>a b. \<not> cmp a b \<le> 0 \<Longrightarrow> cmp b a \<le> 0"
    and tr: "\<And>a b c. cmp a b \<le> 0 \<Longrightarrow> cmp b c \<le> 0 \<Longrightarrow> cmp a c \<le> 0"
    and srt: "sorted_wrt (\<lambda>a b. cmp a b \<le> 0) xs"
  shows "sorted_wrt (\<lambda>a b. cmp a b \<le> (0::int)) (insert_by cmp x xs)"
  using srt
proof (induction xs)
  case Nil
  show ?case by simp
next
  case (Cons y ys)
  show ?case
  proof (cases "cmp x y \<le> 0")
    case True
    then have "\<forall>z\<in>set ys. cmp x z \<le> 0" using Cons.prems tr by auto
    with True Cons.prems show ?thesis by simp
  next
    case False
    then have "cmp y x \<le> 0" by (rule tot)
    with False Cons show ?thesis by (auto simp: set_insert_by)
  qed
qed

lemma sorted_sort_by:
  assumes "consistent_comparator cmp"
  shows "sorted_wrt (\<lambda>a b. cmp a b \<le> 0) (sort_by cmp xs)"
proof -
  have tot: "\<And>a b. \<not> cmp a b \<le> 0 \<Longrightarrow> cmp b a \<le> 0"
    using assms unfolding consistent_comparator_def by blast
  have tr: "\<And>a b c. cmp a b \<le> 0 \<Longrightarrow> cmp b c \<le> 0 \<Longrightarrow> cmp a c \<le> 0"
    using assms unfolding consistent_comparator_def by blast
  show ?thesis
    by (induction xs) (auto intro: sorted_insert_by tot tr)
qed

lemma consistent_newest: "consistent_comparator (compareFn lc Newest)"
  by (auto simp: consistent_comparator_def compareFn_def)

lemma consistent_oldest: "consistent_comparator (compareFn lc Oldest)"
  by (auto simp: consistent_comparator_def compareFn_def)

lemma consistent_alphabetical:
  assumes "consistent_comparator lc"
  shows "consistent_comparator (compareFn lc Alphabetical)"
proof -
  have tot: "\<And>a b. lc a b \<le> 0 \<or> lc b a \<le> 0"
    using assms unfolding consistent_comparator_def by blast
  have tr: "\<And>a b c. lc a b \<le> 0 \<Longrightarrow> lc b c \<le> 0 \<Longrightarrow> lc a c \<le> 0"
    using assms unfolding consistent_comparator_def by blast
  show ?thesis
    unfolding consistent_comparator_def compareFn_def sort_mode.case
  proof (intro conjI allI impI)
    fix a b :: post
    show "lc (title a) (title b) \<le> 0 \<or> lc (title b) (title a) \<le> 0" by (rule tot)
  next
    fix a b c :: post
    assume "lc (title a) (title b) \<le> 0 \<and> lc (title b) (title c) \<le> 0"
    then show "lc (title a) (title c) \<le> 0" using tr by blast
  qed
qed

lemma codeUnitCompare_total: "codeUnitCompare a b \<le> 0 \<or> codeUnitCompare b a \<le> 0"
  by (induction a b rule: codeUnitCompare.induct) auto

lemma codeUnitCompare_trans: "codeUnitCompare a b \<le> 0 \<Longrightarrow> codeUnitCompare b c \<le> 0 \<Longrightarrow> codeUnitCompare a c \<le> 0"
proof (induction a c arbitrary: b rule: codeUnitCompare.induct)
  case 1
  show ?case by simp
next
  case (2 y ys)
  show ?case by simp
next
  case (3 x xs)
  then show ?case by (cases b) (auto split: if_splits)
next
  case (4 x xs y ys)
  then show ?case by (cases b) (auto split: if_splits)
qed

lemma codeUnitCompare_consistent: "consistent_comparator codeUnitCompare"
  unfolding consistent_comparator_def using codeUnitCompare_total codeUnitCompare_trans by blast

text \<open>
  Claim C4. Sorting with mode \<open>newest\<close> yields a list non-increasing by identifier, with
  mode \<open>oldest\<close> a list non-decreasing by identifier, and with mode \<open>alphabetical\<close> a list
  non-decreasing by title in the order of the locale-aware comparison, for every
  collation that is a consistent comparator.
\<close>

theorem sortPosts_orders_by_mode:
  "sorted_wrt (\<lambda>a b. post_id a \<ge> post_id b) (sortPosts lc Newest P)
   \<and> sorted_wrt (\<lambda>a b. post_id a \<le> post_id b) (sortPosts lc Oldest P)
   \<and> (consistent_comparator lc \<longrightarrow>
        sorted_wrt (\<lambda>a b. lc (title a) (title b) \<le> 0) (sortPosts lc Alphabetical P))"
proof (intro conjI impI)
  show "sorted_wrt (\<lambda>a b. post_id a \<ge> post_id b) (sortPosts lc Newest P)"
    using sorted_sort_by [OF consistent_newest, of lc P]
    by (simp add: sortPosts_def compareFn_def)
  show "sorted_wrt (\<lambda>a b. post_id a \<le> post_id b) (sortPosts lc Oldest P)"
    using sorted_sort_by [OF consistent_oldest, of lc P]
    by (simp add: sortPosts_def compareFn_def)
  assume "consistent_comparator lc"
  then show "sorted_wrt (\<lambda>a b. lc (title a) (title b) \<le> 0) (sortPosts lc Alphabetical P)"
    using sorted_sort_by [OF consistent_alphabetical, of lc P]
    by (simp add: sortPosts_def compareFn_def)
qed

theorem sortPosts_orders_by_mode_witness:
  "consistent_comparator codeUnitCompare
   \<and> sorted_wrt (\<lambda>a b. codeUnitCompare (title a) (title b) \<le> 0)
        (sortPosts codeUnitCompare Alphabetical three_posts)
   \<and> map post_id (sortPosts codeUnitCompare Alphabetical three_posts) = [1, 3, 2]
   \<and> map post_id (sortPosts codeUnitCompare Newest three_posts) = [3, 2, 1]
   \<and> map post_id (sortPosts codeUnitCompare Oldest three_posts) = [1, 2, 3]"
proof -
  have a: "map post_id (sortPosts codeUnitCompare Alphabetical three_posts) = [1, 3, 2]"
    by code_simp
  have n: "map post_id (sortPosts codeUnitCompare Newest three_posts) = [3, 2, 1]"
    by code_simp
  have o: "map post_id (sortPosts codeUnitCompare Oldest three_posts) = [1, 2, 3]"
    by code_simp
  show ?thesis
    using sortPosts_orders_by_mode [of codeUnitCompare three_posts]
      codeUnitCompare_consistent a n o
    by blast
qed

subsection \<open>Pagination\<close>

lemma length_filteredPosts: "length (filteredPosts lc s) = length (filtered s)"
  by (simp add: filteredPosts_def sortPosts_def length_sort_by)

lemma pageCount_div:
  "pageCount lc s = - (- int (length (filteredPosts lc s)) div postsPerPage s)"
  unfolding pageCount_def
  using ceiling_divide_eq_div [of "int (length (filteredPosts lc s))" "postsPerPage s", where ?'a = real]
  by simp

lemma pageCount_12:
  "postsPerPage s = 12 \<Longrightarrow> pageCount lc s = (int (length (filteredPosts lc s)) + 11) div 12"
  by (simp add: pageCount_div)

lemma clamp_index_nat: "clamp_index len (int a) = min a len"
  by (simp add: clamp_index_def)

lemma slice_page:
  fixes xs :: "'a list"
  assumes "1 \<le> p" and "(p - 1) * 12 < int (length xs)"
  shows "slice xs (p * 12 - 12) (p * 12) = take 12 (drop (nat ((p - 1) * 12)) xs)"
proof -
  obtain q where p: "p = int q + 1"
    using assms(1) by (metis add.commute diff_add_cancel nat_0_le diff_ge_0_iff_ge)
  have q: "q * 12 < length xs"
    using assms(2) unfolding p by simp
  have a: "p * 12 - 12 = int (q * 12)" and b: "p * 12 = int (q * 12 + 12)"
    unfolding p by simp_all
  have n: "nat ((p - 1) * 12) = q * 12"
    unfolding p by (simp add: nat_mult_distrib)
  have "slice xs (p * 12 - 12) (p * 12) = slice xs (int (q * 12)) (p * 12)"
    by (simp only: a)
  also have "\<dots> = slice xs (int (q * 12)) (int (q * 12 + 12))"
    by (simp only: b)
  also have "\<dots> = take 12 (drop (q * 12) xs)"
    unfolding slice_def clamp_index_nat Let_def using q by (auto simp: min_def)
  finally show ?thesis
    by (simp only: n)
qed

lemma slice_past_end:
  assumes "int (length xs) \<le> start"
  shows "slice xs start stop = []"
  using assms by (simp add: slice_def clamp_index_def)

lemma pageCount_code [code]:
  "pageCount lc s = - (- int (length (filteredPosts lc s)) div postsPerPage s)"
  by (rule pageCount_div)

text \<open>
  Claim C5. With page size 12, the page count is the ceiling of a twelfth of the number
  of sorted posts, for every list, the empty one included; and for every page \<open>p\<close> from
  1 to the page count the visible slice has \<open>min 12 (count - (p - 1) * 12)\<close> posts, the
  ones at the indices from \<open>(p - 1) * 12\<close> on in the sorted list.
\<close>

theorem currentPosts_is_the_page:
  assumes pp: "postsPerPage s = 12"
  shows "pageCount lc s = \<lceil>real (length (filteredPosts lc s)) / 12\<rceil>
    \<and> pageCount lc s = (int (length (filteredPosts lc s)) + 11) div 12
    \<and> (1 \<le> currentPage s \<and> currentPage s \<le> pageCount lc s \<longrightarrow>
         length (currentPosts lc s) =
           min 12 (length (filteredPosts lc s) - nat ((currentPage s - 1) * 12))
         \<and> (\<forall>i < length (currentPosts lc s).
               currentPosts lc s ! i =
                 filteredPosts lc s ! (nat ((currentPage s - 1) * 12) + i)))"
proof -
  let ?xs = "filteredPosts lc s"
  let ?p = "currentPage s"
  have pc: "pageCount lc s = (int (length ?xs) + 11) div 12"
    using pp by (rule pageCount_12)
  have c1: "pageCount lc s = \<lceil>real (length ?xs) / 12\<rceil>"
    by (simp add: pageCount_def pp)
  have c2: "1 \<le> ?p \<and> ?p \<le> pageCount lc s \<longrightarrow>
         length (currentPosts lc s) = min 12 (length ?xs - nat ((?p - 1) * 12))
         \<and> (\<forall>i < length (currentPosts lc s).
               currentPosts lc s ! i = ?xs ! (nat ((?p - 1) * 12) + i))"
  proof
    assume h: "1 \<le> ?p \<and> ?p \<le> pageCount lc s"
    then have lo: "1 \<le> ?p" and hi: "?p \<le> pageCount lc s" by simp_all
    have inside: "(?p - 1) * 12 < int (length ?xs)"
      using hi lo unfolding pc by presburger
    have cur: "currentPosts lc s = take 12 (drop (nat ((?p - 1) * 12)) ?xs)"
      using slice_page [OF lo inside] by (simp add: currentPosts_def pp)
    have l: "length (currentPosts lc s) = min 12 (length ?xs - nat ((?p - 1) * 12))"
      by (simp add: cur min.commute)
    have n: "\<forall>i < length (currentPosts lc s).
          currentPosts lc s ! i = ?xs ! (nat ((?p - 1) * 12) + i)"
      using inside by (simp add: cur)
    from l n show "length (currentPosts lc s) = min 12 (length ?xs - nat ((?p - 1) * 12))
         \<and> (\<forall>i < length (currentPosts lc s).
               currentPosts lc s ! i = ?xs ! (nat ((?p - 1) * 12) + i))"
      by blast
  qed
  from c1 pc c2 show ?thesis by blast
qed

theorem currentPosts_is_the_page_witness:
  "postsPerPage (onPageChange 2 thirteen_loaded) = 12
   \<and> currentPage (onPageChange 2 thirteen_loaded) = 2
   \<and> pageCount codeUnitCompare (onPageChange 2 thirteen_loaded) = 2
   \<and> length (filteredPosts codeUnitCompare (onPageChange 2 thirteen_loaded)) = 13
   \<and> length (currentPosts codeUnitCompare (onPageChange 2 thirteen_loaded)) = 1
   \<and> currentPosts codeUnitCompare (onPageChange 2 thirteen_loaded) ! 0 =
       filteredPosts codeUnitCompare (onPageChange 2 thirteen_loaded) ! 12
   \<and> postsPerPage mount_state = 12
   \<and> length (filteredPosts codeUnitCompare mount_state) = 0
   \<and> pageCount codeUnitCompare mount_state = 0
   \<and> pageCount codeUnitCompare mount_state
       = \<lceil>real (length (filteredPosts codeUnitCompare mount_state)) / 12\<rceil>"
proof -
  let ?s = "onPageChange 2 thirteen_loaded"
  have h1: "postsPerPage ?s = 12" by code_simp
  have p2: "currentPage ?s = 2" by code_simp
  have n: "length (filteredPosts codeUnitCompare ?s) = 13" by code_simp
  note t = currentPosts_is_the_page [OF h1, of codeUnitCompare]
  have pc: "pageCount codeUnitCompare ?s = 2"
    using t n by simp
  have len: "length (currentPosts codeUnitCompare ?s) = 1"
    using t n p2 pc by simp
  have nth: "currentPosts codeUnitCompare ?s ! 0 = filteredPosts codeUnitCompare ?s ! 12"
    using t len p2 pc by simp
  have m1: "postsPerPage mount_state = 12" by code_simp
  have m0: "length (filteredPosts codeUnitCompare mount_state) = 0" by code_simp
  note u = currentPosts_is_the_page [OF m1, of codeUnitCompare]
  have mpc: "pageCount codeUnitCompare mount_state = 0"
    using u m0 by simp
  have mce: "pageCount codeUnitCompare mount_state
       = \<lceil>real (length (filteredPosts codeUnitCompare mount_state)) / 12\<rceil>"
    using u by simp
  from h1 p2 pc n len nth m1 m0 mpc mce show ?thesis by blast
qed

subsection \<open>Favourites\<close>

text \<open>
  Claim C6. Toggling the same post twice brings the set of favourites back to what it
  was, and after each toggle the value stored under the key \<open>favorites\<close> is the
  serialised list of favourites held in memory. (The array itself may come back in
  another order: a post that was a favourite returns at the end.)
\<close>

theorem toggleFavorite_twice:
  "set (favorites (toggleFavorite i (toggleFavorite i s))) = set (favorites s)
   \<and> localStorage (toggleFavorite i s) ''favorites''
       = Some (JSON_stringify (favorites (toggleFavorite i s)))
   \<and> localStorage (toggleFavorite i (toggleFavorite i s)) ''favorites''
       = Some (JSON_stringify (favorites (toggleFavorite i (toggleFavorite i s))))"
  by (auto simp: toggleFavorite_def Let_def)


theorem toggleFavorite_twice_witness:
  "set (favorites (toggleFavorite 1 (toggleFavorite 1 two_favorites))) = {1, 2}
   \<and> favorites (toggleFavorite 1 two_favorites) = [2]
   \<and> localStorage (toggleFavorite 1 two_favorites) ''favorites'' = Some ''[2]''
   \<and> favorites (toggleFavorite 1 (toggleFavorite 1 two_favorites)) = [2, 1]
   \<and> localStorage (toggleFavorite 1 (toggleFavorite 1 two_favorites)) ''favorites''
       = Some ''[2,1]''"
proof -
  have f0: "favorites two_favorites = [1, 2]" by code_simp
  have f1: "favorites (toggleFavorite 1 two_favorites) = [2]" by code_simp
  have f2: "favorites (toggleFavorite 1 (toggleFavorite 1 two_favorites)) = [2, 1]" by code_simp
  have j1: "JSON_stringify [2] = ''[2]''" by code_simp
  have j2: "JSON_stringify [2, 1] = ''[2,1]''" by code_simp
  show ?thesis
    using toggleFavorite_twice [of 1 two_favorites] f0 f1 f2 j1 j2 by simp
qed

subsection \<open>Error classification and the initial load\<close>

text \<open>
  Claim C7. The classifier gives every error one of three messages: when the error
  carries a response, \<open>Error:\<close> followed by the status code and the status text (both
  occur in the message); when it carries no response but the request was sent,
  \<open>Server is not responding\<close>; otherwise \<open>Failed to fetch posts.\<close>. The message is what
  \<open>handleError\<close> stores in the state.
\<close>

theorem errorMsg_classifies:
  "(\<forall>status statusText. response err = Some (status, statusText) \<longrightarrow>
      errorMsg err = ''Error: '' @ toString status @ '' '' @ statusText
      \<and> includes_str (errorMsg err) (toString status)
      \<and> includes_str (errorMsg err) statusText)
   \<and> (response err = None \<and> request err \<longrightarrow> errorMsg err = ''Server is not responding'')
   \<and> (response err = None \<and> \<not> request err \<longrightarrow> errorMsg err = ''Failed to fetch posts.'')
   \<and> error (handleError err s) = errorMsg err"
proof (intro conjI allI impI)
  fix status statusText
  assume r: "response err = Some (status, statusText)"
  show m: "errorMsg err = ''Error: '' @ toString status @ '' '' @ statusText"
    using r by (simp add: errorMsg_def)
  have "errorMsg err = ''Error: '' @ toString status @ ('' '' @ statusText)"
    using m by simp
  then show "includes_str (errorMsg err) (toString status)"
    unfolding includes_str_iff by blast
  have "errorMsg err = (''Error: '' @ toString status @ '' '') @ statusText @ []"
    using m by simp
  then show "includes_str (errorMsg err) statusText"
    unfolding includes_str_iff by blast
next
  assume "response err = None \<and> request err"
  then show "errorMsg err = ''Server is not responding''" by (simp add: errorMsg_def)
next
  assume "response err = None \<and> \<not> request err"
  then show "errorMsg err = ''Failed to fetch posts.''" by (simp add: errorMsg_def)
next
  show "error (handleError err s) = errorMsg err" by (simp add: handleError_def)
qed


theorem errorMsg_classifies_witness:
  "response error_500 = Some (500, ''Internal Server Error'')
   \<and> errorMsg error_500 = ''Error: 500 Internal Server Error''
   \<and> includes_str (errorMsg error_500) (toString 500)
   \<and> includes_str (errorMsg error_500) ''Internal Server Error''
   \<and> errorMsg no_answer = ''Server is not responding''
   \<and> errorMsg not_sent = ''Failed to fetch posts.''"
proof -
  have r: "response error_500 = Some (500, ''Internal Server Error'')"
    by (simp add: error_500_def)
  have d: "toString 500 = ''500''" by code_simp
  have n: "response no_answer = None \<and> request no_answer"
    by (simp add: no_answer_def)
  have u: "response not_sent = None \<and> \<not> request not_sent"
    by (simp add: not_sent_def)
  show ?thesis
    using errorMsg_classifies [of error_500 mount_state] errorMsg_classifies [of no_answer mount_state]
      errorMsg_classifies [of not_sent mount_state] r d n u
    by simp
qed

text \<open>
  Claim C8. When the request for the posts or the request for the users fails, the
  load fails as a whole: the post list is left as it was (empty, at mount) with no
  enrichment, loading ends, and the message the classifier gives for a failed request
  is stored as the error.
\<close>

theorem fetchData_fails_as_a_whole:
  assumes "isl postsRes \<or> isl usersRes"
  shows "posts (fetchData uf postsRes usersRes s) = posts s
    \<and> \<not> loading (fetchData uf postsRes usersRes s)
    \<and> (\<exists>e. (postsRes = Inl e \<or> usersRes = Inl e) \<and> error (fetchData uf postsRes usersRes s) = errorMsg e)
    \<and> posts (fetchData uf postsRes usersRes (initial_state favs store)) = []"
  using assms
  by (cases postsRes; cases usersRes)
     (auto simp: fetchData_def promise_all_def handleError_def initial_state_def)


theorem fetchData_fails_as_a_whole_witness:
  "isl (Inl error_500 :: axios_error + raw_post list)
   \<and> posts (fetchData False (Inl error_500) (Inr [user_1]) mount_state) = []
   \<and> \<not> loading (fetchData False (Inl error_500) (Inr [user_1]) mount_state)
   \<and> error (fetchData False (Inl error_500) (Inr [user_1]) mount_state)
       = ''Error: 500 Internal Server Error''"
proof -
  have h: "isl (Inl error_500 :: axios_error + raw_post list) \<or> isl (Inr [user_1] :: axios_error + user list)"
    by simp
  have p: "posts mount_state = []" by code_simp
  have e: "error (fetchData False (Inl error_500) (Inr [user_1]) mount_state)
       = ''Error: 500 Internal Server Error''" by code_simp
  show ?thesis
    using fetchData_fails_as_a_whole [OF h, of False mount_state] p e by simp
qed

subsection \<open>Deleting a post\<close>

lemma filter_distinct_id:
  assumes "distinct (map f (xs @ x # ys))"
  shows "filter (\<lambda>p. f p \<noteq> f x) (xs @ x # ys) = xs @ ys"
proof -
  have nx: "f x \<notin> f ` set xs" and ny: "f x \<notin> f ` set ys"
    using assms by auto
  have a: "\<forall>p \<in> set xs. f p \<noteq> f x"
  proof
    fix p assume "p \<in> set xs"
    then have "f p \<in> f ` set xs" by (rule imageI)
    with nx show "f p \<noteq> f x" by metis
  qed
  have b: "\<forall>p \<in> set ys. f p \<noteq> f x"
  proof
    fix p assume "p \<in> set ys"
    then have "f p \<in> f ` set ys" by (rule imageI)
    with ny show "f p \<noteq> f x" by metis
  qed
  show ?thesis using a b by (simp add: filter_id_conv)
qed

lemma currentPosts_past_end:
  assumes pp: "postsPerPage s = 12" and hi: "pageCount lc s < currentPage s"
  shows "currentPosts lc s = []"
proof -
  have "int (length (filteredPosts lc s)) \<le> currentPage s * 12 - 12"
    using hi unfolding pageCount_12 [OF pp] by presburger
  then show ?thesis
    by (simp add: currentPosts_def pp slice_past_end)
qed

text \<open>
  Claim C9. Confirming the delete of candidate \<open>x\<close>, one of the posts and the only one
  with its identifier, leaves the other posts as they were and in their order, clears
  the candidate and opens the toast \<open>Post deleted successfully\<close>. The page number is
  not changed; the pipeline is total, and when the page now lies past the last page
  the visible slice is the empty list.
\<close>

theorem onDeleteConfirm_removes_the_candidate:
  assumes cand: "deleteCandidate s = Some x"
    and split: "posts s = xs @ x # ys"
    and ids: "distinct (map post_id (posts s))"
  shows "posts (onDeleteConfirm s) = xs @ ys
    \<and> deleteCandidate (onDeleteConfirm s) = None
    \<and> snackbarOpen (onDeleteConfirm s)
    \<and> snackbarMessage (onDeleteConfirm s) = ''Post deleted successfully''
    \<and> currentPage (onDeleteConfirm s) = currentPage s
    \<and> (postsPerPage s = 12 \<and> pageCount lc (onDeleteConfirm s) < currentPage s
         \<longrightarrow> currentPosts lc (onDeleteConfirm s) = [])"
proof -
  have "posts (onDeleteConfirm s) = filter (\<lambda>p. post_id p \<noteq> post_id x) (xs @ x # ys)"
    by (simp add: onDeleteConfirm_def handleDelete_def cand split)
  also have "\<dots> = xs @ ys"
    using ids unfolding split by (rule filter_distinct_id)
  finally have a: "posts (onDeleteConfirm s) = xs @ ys" .
  have b: "deleteCandidate (onDeleteConfirm s) = None \<and> snackbarOpen (onDeleteConfirm s)
    \<and> snackbarMessage (onDeleteConfirm s) = ''Post deleted successfully''
    \<and> currentPage (onDeleteConfirm s) = currentPage s"
    by (simp add: onDeleteConfirm_def handleDelete_def)
  have c: "postsPerPage s = 12 \<and> pageCount lc (onDeleteConfirm s) < currentPage s
         \<longrightarrow> currentPosts lc (onDeleteConfirm s) = []"
  proof
    assume h: "postsPerPage s = 12 \<and> pageCount lc (onDeleteConfirm s) < currentPage s"
    have "postsPerPage (onDeleteConfirm s) = 12"
      using h by (simp add: onDeleteConfirm_def handleDelete_def)
    moreover have "pageCount lc (onDeleteConfirm s) < currentPage (onDeleteConfirm s)"
      using h b by simp
    ultimately show "currentPosts lc (onDeleteConfirm s) = []"
      by (rule currentPosts_past_end)
  qed
  from a b c show ?thesis by blast
qed


theorem onDeleteConfirm_removes_the_candidate_witness:
  "deleteCandidate page_two_candidate = Some (enrich_post [user_1] (raw_n 1))
   \<and> distinct (map post_id (posts page_two_candidate))
   \<and> map post_id (posts page_two_candidate) = [1, 2, 3, 4, 5, 6, 7, 8, 9, 10, 11, 12, 13]
   \<and> map post_id (posts (onDeleteConfirm page_two_candidate))
       = [2, 3, 4, 5, 6, 7, 8, 9, 10, 11, 12, 13]
   \<and> deleteCandidate (onDeleteConfirm page_two_candidate) = None
   \<and> snackbarMessage (onDeleteConfirm page_two_candidate) = ''Post deleted successfully''
   \<and> currentPage (onDeleteConfirm page_two_candidate) = 2
   \<and> pageCount codeUnitCompare (onDeleteConfirm page_two_candidate) = 1
   \<and> currentPosts codeUnitCompare (onDeleteConfirm page_two_candidate) = []"
proof -
  let ?x = "enrich_post [user_1] (raw_n 1)"
  let ?ys = "map (enrich_post [user_1]) (map raw_n [2, 3, 4, 5, 6, 7, 8, 9, 10, 11, 12, 13])"
  have cand: "deleteCandidate page_two_candidate = Some ?x" by code_simp
  have split: "posts page_two_candidate = [] @ ?x # ?ys" by code_simp
  have ids: "distinct (map post_id (posts page_two_candidate))" by code_simp
  have before: "map post_id (posts page_two_candidate) = [1, 2, 3, 4, 5, 6, 7, 8, 9, 10, 11, 12, 13]"
    by code_simp
  have rest: "map post_id ([] @ ?ys) = [2, 3, 4, 5, 6, 7, 8, 9, 10, 11, 12, 13]" by code_simp
  have pp: "postsPerPage page_two_candidate = 12" by code_simp
  have cp: "currentPage page_two_candidate = 2" by code_simp
  have pc: "pageCount codeUnitCompare (onDeleteConfirm page_two_candidate) = 1" by code_simp
  note t = onDeleteConfirm_removes_the_candidate [OF cand split ids, of codeUnitCompare]
  have after: "map post_id (posts (onDeleteConfirm page_two_candidate))
       = [2, 3, 4, 5, 6, 7, 8, 9, 10, 11, 12, 13]"
    using t rest by simp
  have empty: "currentPosts codeUnitCompare (onDeleteConfirm page_two_candidate) = []"
    using t pp cp pc by simp
  from cand ids before after t cp pc empty show ?thesis by simp
qed

subsection \<open>The pagination bound\<close>

lemma pageCount_length:
  "length (filtered s) = length (filtered s') \<Longrightarrow> postsPerPage s = postsPerPage s'
   \<Longrightarrow> pageCount lc s = pageCount lc s'"
  by (simp add: pageCount_def length_filteredPosts)

lemma pageCount_positive:
  assumes "postsPerPage s = 12" and "filteredPosts lc s \<noteq> []"
  shows "1 \<le> pageCount lc s"
proof -
  have "0 < int (length (filteredPosts lc s))" using assms(2) by simp
  then show ?thesis unfolding pageCount_12 [OF assms(1)] by presburger
qed

text \<open>
  Claim C3, as the specification states it, says that the current page lies between 1
  and the page count after every change of the search text or the sort mode and after
  every delete. The page count of an empty filtered list is 0, so the bound fails
  whenever nothing matches: at mount (and after a failed load) there are no posts, and
  after the search text \<open>zzz\<close> has reached the pipeline no post of the three matches,
  while the current page is 1.
\<close>

theorem page_bound_fails_on_empty_list:
  "\<not> page_in_range codeUnitCompare (onSearchChange ''a'' mount_state)
   \<and> \<not> page_in_range codeUnitCompare no_match
   \<and> \<not> page_in_range codeUnitCompare (onSortPick Oldest no_match)"
proof -
  have a: "pageCount codeUnitCompare (onSearchChange ''a'' mount_state) = 0" by code_simp
  have b: "pageCount codeUnitCompare no_match = 0" by code_simp
  have c: "pageCount codeUnitCompare (onSortPick Oldest no_match) = 0" by code_simp
  have p: "currentPage (onSearchChange ''a'' mount_state) = 1" "currentPage no_match = 1"
    "currentPage (onSortPick Oldest no_match) = 1" by code_simp+
  show ?thesis
    using a b c p by (simp add: page_in_range_def)
qed

text \<open>
  Claim C3, amended. A change of the search text sets the current page to 1. Directly
  after it, and likewise when the debounce timer then hands the new text to the
  pipeline with no change of page in between, the current page lies between 1 and the
  page count exactly when the filtered list is not empty; the page count of an empty
  filtered list is 0. The debounce timer does not change the current page. A change of
  the sort mode changes neither the current page nor the page count: the bound holds
  after it exactly when it held before.
\<close>

theorem page_bound_after_search_and_sort:
  "currentPage (onSearchChange v s) = 1
   \<and> (postsPerPage s = 12 \<longrightarrow>
        (page_in_range lc (onSearchChange v s)
          \<longleftrightarrow> filteredPosts lc (onSearchChange v s) \<noteq> []))
   \<and> (postsPerPage s = 12 \<longrightarrow>
        (page_in_range lc (debounce_settle (onSearchChange v s))
          \<longleftrightarrow> filteredPosts lc (debounce_settle (onSearchChange v s)) \<noteq> []))
   \<and> (postsPerPage s = 12 \<and> filteredPosts lc s = [] \<longrightarrow> pageCount lc s = 0)
   \<and> currentPage (debounce_settle s) = currentPage s
   \<and> currentPage (onSortPick m s) = currentPage s
   \<and> pageCount lc (onSortPick m s) = pageCount lc s
   \<and> (page_in_range lc (onSortPick m s) \<longleftrightarrow> page_in_range lc s)"
proof -
  have first_page: "page_in_range lc t \<longleftrightarrow> filteredPosts lc t \<noteq> []"
    if pp: "postsPerPage t = 12" and one: "currentPage t = 1" for t
  proof (cases "filteredPosts lc t = []")
    case True
    then have "pageCount lc t = 0" by (simp add: pageCount_12 [OF pp])
    then show ?thesis using True one by (simp add: page_in_range_def)
  next
    case False
    then have "1 \<le> pageCount lc t" using pp by (simp add: pageCount_positive)
    then show ?thesis using False one by (simp add: page_in_range_def)
  qed
  have a: "currentPage (onSearchChange v s) = 1"
    by (simp add: onSearchChange_def)
  have b: "postsPerPage s = 12 \<longrightarrow>
        (page_in_range lc (onSearchChange v s)
          \<longleftrightarrow> filteredPosts lc (onSearchChange v s) \<noteq> [])"
  proof
    assume "postsPerPage s = 12"
    then have "postsPerPage (onSearchChange v s) = 12" by (simp add: onSearchChange_def)
    then show "page_in_range lc (onSearchChange v s)
          \<longleftrightarrow> filteredPosts lc (onSearchChange v s) \<noteq> []"
      using a by (rule first_page)
  qed
  have c: "postsPerPage s = 12 \<longrightarrow>
        (page_in_range lc (debounce_settle (onSearchChange v s))
          \<longleftrightarrow> filteredPosts lc (debounce_settle (onSearchChange v s)) \<noteq> [])"
  proof
    let ?t = "debounce_settle (onSearchChange v s)"
    assume "postsPerPage s = 12"
    then have "postsPerPage ?t = 12" by (simp add: onSearchChange_def debounce_settle_def)
    moreover have "currentPage ?t = 1" by (simp add: onSearchChange_def debounce_settle_def)
    ultimately show "page_in_range lc ?t \<longleftrightarrow> filteredPosts lc ?t \<noteq> []"
      by (rule first_page)
  qed
  have z: "postsPerPage s = 12 \<and> filteredPosts lc s = [] \<longrightarrow> pageCount lc s = 0"
  proof
    assume h: "postsPerPage s = 12 \<and> filteredPosts lc s = []"
    then have pp: "postsPerPage s = 12" by simp
    show "pageCount lc s = 0" using h by (simp add: pageCount_12 [OF pp])
  qed
  have k: "currentPage (debounce_settle s) = currentPage s"
    by (simp add: debounce_settle_def)
  have d: "currentPage (onSortPick m s) = currentPage s"
    by (simp add: onSortPick_def)
  have e: "pageCount lc (onSortPick m s) = pageCount lc s"
    by (rule pageCount_length) (simp_all add: onSortPick_def filtered_def)
  have f: "page_in_range lc (onSortPick m s) \<longleftrightarrow> page_in_range lc s"
    by (simp add: page_in_range_def d e)
  from a b c z k d e f show ?thesis by blast
qed

theorem page_bound_after_search_and_sort_witness:
  "postsPerPage page_two = 12
   \<and> currentPage page_two = 2
   \<and> currentPage (onSearchChange ''post 1'' page_two) = 1
   \<and> length (filteredPosts codeUnitCompare (debounce_settle (onSearchChange ''post 1'' page_two))) = 5
   \<and> page_in_range codeUnitCompare (onSearchChange ''post 1'' page_two)
   \<and> page_in_range codeUnitCompare (debounce_settle (onSearchChange ''post 1'' page_two))
   \<and> page_in_range codeUnitCompare page_two
   \<and> page_in_range codeUnitCompare (onSortPick Alphabetical page_two)
   \<and> postsPerPage no_match = 12
   \<and> filteredPosts codeUnitCompare no_match = []
   \<and> pageCount codeUnitCompare no_match = 0"
proof -
  let ?a = "onSearchChange ''post 1'' page_two"
  let ?b = "debounce_settle ?a"
  have pp: "postsPerPage page_two = 12" by code_simp
  have cp: "currentPage page_two = 2" by code_simp
  have na: "length (filteredPosts codeUnitCompare ?a) = 13" by code_simp
  have nb: "length (filteredPosts codeUnitCompare ?b) = 5" by code_simp
  have ea: "filteredPosts codeUnitCompare ?a \<noteq> []" using na by auto
  have eb: "filteredPosts codeUnitCompare ?b \<noteq> []" using nb by auto
  have pc: "pageCount codeUnitCompare page_two = 2" by code_simp
  have r: "page_in_range codeUnitCompare page_two"
    using cp pc by (simp add: page_in_range_def)
  have np: "postsPerPage no_match = 12" by code_simp
  have nl: "length (filteredPosts codeUnitCompare no_match) = 0" by code_simp
  have ne: "filteredPosts codeUnitCompare no_match = []" using nl by simp
  have nz: "pageCount codeUnitCompare no_match = 0"
    using page_bound_after_search_and_sort [of "''zzz''" no_match codeUnitCompare Oldest] np ne
    by blast
  have main: "currentPage ?a = 1 \<and> page_in_range codeUnitCompare ?a
      \<and> page_in_range codeUnitCompare ?b
      \<and> page_in_range codeUnitCompare (onSortPick Alphabetical page_two)"
    using page_bound_after_search_and_sort [of "''post 1''" page_two codeUnitCompare Alphabetical]
      pp ea eb r
    by blast
  from pp cp nb r np ne nz main show ?thesis by blast
qed

text \<open>
  The pagination control stays live while the debounce timer runs. A click on page 2
  between the change of the search text and the timer leaves, once the timer has run,
  page 2 of 1 with five matching posts and an empty visible slice.
\<close>

lemma page_click_before_debounce:
  "length (filteredPosts codeUnitCompare
      (debounce_settle (onPageChange 2 (onSearchChange ''post 1'' thirteen_loaded)))) = 5
   \<and> \<not> page_in_range codeUnitCompare
        (debounce_settle (onPageChange 2 (onSearchChange ''post 1'' thirteen_loaded)))
   \<and> currentPosts codeUnitCompare
        (debounce_settle (onPageChange 2 (onSearchChange ''post 1'' thirteen_loaded))) = []"
proof -
  let ?t = "debounce_settle (onPageChange 2 (onSearchChange ''post 1'' thirteen_loaded))"
  have n: "length (filteredPosts codeUnitCompare ?t) = 5" by code_simp
  have p: "currentPage ?t = 2" "pageCount codeUnitCompare ?t = 1" by code_simp+
  have c: "length (currentPosts codeUnitCompare ?t) = 0" by code_simp
  show ?thesis using n p c by (simp add: page_in_range_def)
qed

text \<open>
  A delete keeps the page number as well. On the second page of thirteen posts the bound
  holds; after the one post shown there is deleted, the page count is 1 and the current
  page is still 2.
\<close>

lemma delete_leaves_page_past_the_end:
  "page_in_range codeUnitCompare page_two_candidate
   \<and> \<not> page_in_range codeUnitCompare (onDeleteConfirm page_two_candidate)"
proof -
  have a: "currentPage page_two_candidate = 2" "pageCount codeUnitCompare page_two_candidate = 2"
    by code_simp+
  have b: "currentPage (onDeleteConfirm page_two_candidate) = 2"
    "pageCount codeUnitCompare (onDeleteConfirm page_two_candidate) = 1"
    by code_simp+
  show ?thesis using a b by (simp add: page_in_range_def)
qed

end
